theory Spec2Isabelle
  imports Complex_Main
begin

section \<open>Data model\<close>

text \<open>
  The layout generator works on Python dictionaries with the keys \<^verbatim>\<open>'x'\<close>, \<^verbatim>\<open>'y'\<close>,
  \<^verbatim>\<open>'w'\<close>, \<^verbatim>\<open>'h'\<close> (every rectangle, the plaza included) and, for buildings,
  \<^verbatim>\<open>'type'\<close>. A rectangle is a record of the four numbers; a building extends it with
  the type string, so that the geometry helpers accept both, as they do in the source.
  The field for key \<^verbatim>\<open>'k'\<close> is called \<open>b_k\<close>: a record field is a global constant, and
  \<open>x\<close>, \<open>y\<close>, \<open>w\<close>, \<open>h\<close> are wanted as variable names.

  Python's floats are idealised as real numbers: the development is about the geometry
  and the search, not about rounding.
\<close>

record rect =
  b_x :: real
  b_y :: real
  b_w :: real
  b_h :: real

record building = rect +
  b_type :: string

datatype error = ValueError

subsection \<open>Constants\<close>

definition SITE_WIDTH :: real where "SITE_WIDTH = 200"
definition SITE_HEIGHT :: real where "SITE_HEIGHT = 140"

definition TOWER_A_SIZE :: "real \<times> real" where "TOWER_A_SIZE = (30, 20)"
definition TOWER_B_SIZE :: "real \<times> real" where "TOWER_B_SIZE = (20, 20)"

definition BOUNDARY_BUFFER :: real where "BOUNDARY_BUFFER = 10"
definition MIN_BUILDING_DISTANCE :: real where "MIN_BUILDING_DISTANCE = 15"
definition NEIGHBOR_DISTANCE :: real where "NEIGHBOR_DISTANCE = 60"

definition PLAZA_SIZE :: real where "PLAZA_SIZE = 40"
definition PLAZA_X :: real where "PLAZA_X = (SITE_WIDTH - PLAZA_SIZE) / 2"
definition PLAZA_Y :: real where "PLAZA_Y = (SITE_HEIGHT - PLAZA_SIZE) / 2"

section \<open>Geometry helper functions\<close>

definition rectangles_overlap :: "'a rect_scheme \<Rightarrow> 'b rect_scheme \<Rightarrow> bool" where
  "rectangles_overlap r1 r2 =
     (\<not> (b_x r1 + b_w r1 \<le> b_x r2 \<or>
         b_x r2 + b_w r2 \<le> b_x r1 \<or>
         b_y r1 + b_h r1 \<le> b_y r2 \<or>
         b_y r2 + b_h r2 \<le> b_y r1))"

definition rectangle_distance :: "'a rect_scheme \<Rightarrow> 'b rect_scheme \<Rightarrow> real" where
  "rectangle_distance r1 r2 =
     (let dx = max (max (b_x r2 - (b_x r1 + b_w r1)) (b_x r1 - (b_x r2 + b_w r2))) 0;
          dy = max (max (b_y r2 - (b_y r1 + b_h r1)) (b_y r1 - (b_y r2 + b_h r2))) 0
      in sqrt (dx * dx + dy * dy))"

text \<open>
  The spec speaks of rectangles that ``share a boundary'' (edge-touching): they do not
  overlap, but the closed rectangles meet. This predicate follows the spec's words; the
  source has no such function.
\<close>

definition share_boundary :: "'a rect_scheme \<Rightarrow> 'b rect_scheme \<Rightarrow> bool" where
  "share_boundary r1 r2 =
     (\<not> rectangles_overlap r1 r2 \<and>
      b_x r2 \<le> b_x r1 + b_w r1 \<and> b_x r1 \<le> b_x r2 + b_w r2 \<and>
      b_y r2 \<le> b_y r1 + b_h r1 \<and> b_y r1 \<le> b_y r2 + b_h r2)"

section \<open>Constraint checking\<close>

definition plaza :: rect where
  "plaza = \<lparr>b_x = PLAZA_X, b_y = PLAZA_Y, b_w = PLAZA_SIZE, b_h = PLAZA_SIZE\<rparr>"

text \<open>
  The first loop returns \<open>False\<close> at a rectangle that overlaps the plaza; the nested loop
  runs over the index pairs \<open>i < j\<close> and returns \<open>False\<close> at a pair that is too close.
  Both indices stay below the length of the list.
\<close>

definition check_partial_constraints :: "'a rect_scheme list \<Rightarrow> bool" where
  "check_partial_constraints buildings =
     (if list_ex (\<lambda>b. rectangles_overlap b plaza) buildings then False
      else if list_ex (\<lambda>i. list_ex (\<lambda>j.
                rectangle_distance (buildings ! i) (buildings ! j) < MIN_BUILDING_DISTANCE)
              [i + 1 ..< length buildings]) [0 ..< length buildings] then False
      else True)"

section \<open>Layout generator\<close>

text \<open>
  The random source is a parameter: \<open>draws k\<close> is the value of the \<open>k\<close>-th call of the
  library's \<^verbatim>\<open>random.random()\<close> from the start of the search on, a number in \<open>[0, 1)\<close>, and
  \<^verbatim>\<open>random.uniform(a, b)\<close> is the library's \<open>a + (b - a) * random()\<close>. The position in
  the sequence is the state that the search threads through its calls.
\<close>

type_synonym rng = "nat \<Rightarrow> real"

definition unit_draws :: "rng \<Rightarrow> bool" where
  "unit_draws draws = (\<forall>k. 0 \<le> draws k \<and> draws k < 1)"

definition uniform :: "real \<Rightarrow> real \<Rightarrow> real \<Rightarrow> real" where
  "uniform a b r = a + (b - a) * r"

text \<open>The dictionary display draws \<^verbatim>\<open>'x'\<close> first and \<^verbatim>\<open>'y'\<close> second.\<close>

definition random_building :: "rng \<Rightarrow> string \<Rightarrow> nat \<Rightarrow> building \<times> nat" where
  "random_building draws ty n =
     (let (w, h) = (if ty = ''A'' then TOWER_A_SIZE else TOWER_B_SIZE)
      in (\<lparr>b_x = uniform BOUNDARY_BUFFER (SITE_WIDTH - w - BOUNDARY_BUFFER) (draws n),
           b_y = uniform BOUNDARY_BUFFER (SITE_HEIGHT - h - BOUNDARY_BUFFER) (draws (n + 1)),
           b_w = w, b_h = h, b_type = ty\<rparr>, n + 2))"

text \<open>
  The inner loop \<^verbatim>\<open>for _ in range(max_attempts)\<close>: the fourth argument counts the
  attempts that are left. \<open>None\<close> is \<^verbatim>\<open>placed == False\<close> after the loop.
\<close>

fun place :: "rng \<Rightarrow> string \<Rightarrow> building list \<Rightarrow> nat \<Rightarrow> nat \<Rightarrow> (building list \<times> nat) option" where
  "place draws ty buildings 0 n = None"
| "place draws ty buildings (Suc k) n =
     (let (candidate, n') = random_building draws ty n
      in if check_partial_constraints (buildings @ [candidate])
         then Some (buildings @ [candidate], n')
         else place draws ty buildings k n')"

text \<open>The outer loop over the work list; an item that cannot be placed ends the search.\<close>

fun place_all :: "rng \<Rightarrow> nat \<Rightarrow> string list \<Rightarrow> building list \<Rightarrow> nat \<Rightarrow> (building list \<times> nat) option" where
  "place_all draws max_attempts [] buildings n = Some (buildings, n)"
| "place_all draws max_attempts (ty # tys) buildings n =
     (case place draws ty buildings max_attempts n of
        None \<Rightarrow> None
      | Some (buildings', n') \<Rightarrow> place_all draws max_attempts tys buildings' n')"

definition tower_a :: "building list \<Rightarrow> building list" where
  "tower_a buildings = filter (\<lambda>b. b_type b = ''A'') buildings"

definition tower_b :: "building list \<Rightarrow> building list" where
  "tower_b buildings = filter (\<lambda>b. b_type b = ''B'') buildings"

text \<open>
  The counts and the attempt cap are Python integers: a list repeated a negative number
  of times is empty, and so is a range with a negative bound.
\<close>

definition generate_layout :: "int \<Rightarrow> int \<Rightarrow> int \<Rightarrow> rng \<Rightarrow> building list option" where
  "generate_layout num_a num_b max_attempts draws =
     (case place_all draws (nat max_attempts)
             (replicate (nat num_a) ''A'' @ replicate (nat num_b) ''B'') [] 0 of
        None \<Rightarrow> None
      | Some (buildings, n) \<Rightarrow>
          if list_ex (\<lambda>a. \<not> list_ex (\<lambda>b. rectangle_distance a b \<le> NEIGHBOR_DISTANCE)
                               (tower_b buildings)) (tower_a buildings)
          then None
          else Some buildings)"

section \<open>Scoring function\<close>

text \<open>Python's \<^verbatim>\<open>min\<close> and \<^verbatim>\<open>max\<close> raise \<^verbatim>\<open>ValueError\<close> on an empty sequence.\<close>

fun py_min :: "real list \<Rightarrow> error + real" where
  "py_min [] = Inl ValueError"
| "py_min (v # vs) = Inr (fold min vs v)"

fun py_max :: "real list \<Rightarrow> error + real" where
  "py_max [] = Inl ValueError"
| "py_max (v # vs) = Inr (fold max vs v)"

text \<open>The loop over \<^verbatim>\<open>tower_a\<close> that accumulates \<^verbatim>\<open>proximity_score\<close>.\<close>

fun proximity_loop :: "building list \<Rightarrow> building list \<Rightarrow> real \<Rightarrow> error + real" where
  "proximity_loop [] tb proximity_score = Inr proximity_score"
| "proximity_loop (a # as) tb proximity_score =
     (case py_min (map (\<lambda>b. rectangle_distance a b) tb) of
        Inl e \<Rightarrow> Inl e
      | Inr min_dist \<Rightarrow>
          proximity_loop as tb (proximity_score + max 0 (NEIGHBOR_DISTANCE - min_dist)))"

definition compute_score :: "building list \<Rightarrow> error + real" where
  "compute_score buildings =
     (let total_area = sum_list (map (\<lambda>b. b_w b * b_h b) buildings)
      in case proximity_loop (tower_a buildings) (tower_b buildings) 0 of
        Inl e \<Rightarrow> Inl e
      | Inr proximity_score \<Rightarrow>
          (let xs = map b_x buildings; ys = map b_y buildings
           in case py_max xs of Inl e \<Rightarrow> Inl e | Inr max_xs \<Rightarrow>
              case py_min xs of Inl e \<Rightarrow> Inl e | Inr min_xs \<Rightarrow>
              case py_max ys of Inl e \<Rightarrow> Inl e | Inr max_ys \<Rightarrow>
              case py_min ys of Inl e \<Rightarrow> Inl e | Inr min_ys \<Rightarrow>
              (let spread_penalty = (max_xs - min_xs) + (max_ys - min_ys)
               in Inr (20 * real (length buildings) +
                       0.03 * total_area +
                       3.0 * proximity_score -
                       0.15 * spread_penalty))))"

subsection \<open>The score as the specification words it\<close>

text \<open>
  These definitions follow the specification's sentences, not the source: the nearest
  Secondary distance is a minimum over a set, the proximity score a sum over the Primary
  rectangles, the spread penalty a difference of extrema over the origins.
\<close>

definition spec_nearest_secondary_distance :: "building \<Rightarrow> building list \<Rightarrow> real" where
  "spec_nearest_secondary_distance a layout =
     Min ((\<lambda>b. rectangle_distance a b) ` {b \<in> set layout. b_type b = ''B''})"

definition spec_proximity_score :: "building list \<Rightarrow> real" where
  "spec_proximity_score layout =
     (\<Sum>a\<leftarrow>filter (\<lambda>b. b_type b = ''A'') layout.
        max 0 (NEIGHBOR_DISTANCE - spec_nearest_secondary_distance a layout))"

definition spec_spread_penalty :: "building list \<Rightarrow> real" where
  "spec_spread_penalty layout =
     (Max (b_x ` set layout) - Min (b_x ` set layout)) +
     (Max (b_y ` set layout) - Min (b_y ` set layout))"

definition spec_score :: "building list \<Rightarrow> real" where
  "spec_score layout =
     20 * real (length layout) +
     0.03 * (\<Sum>b\<leftarrow>layout. b_w b * b_h b) +
     3.0 * spec_proximity_score layout -
     0.15 * spec_spread_penalty layout"

section \<open>Auxiliary predicates\<close>

text \<open>
  The legal interior of the site, in the specification's words: a rectangle keeps the
  boundary buffer to every edge of the site.
\<close>

definition inside_buffer :: "'a rect_scheme \<Rightarrow> bool" where
  "inside_buffer r =
     (BOUNDARY_BUFFER \<le> b_x r \<and> b_x r + b_w r \<le> SITE_WIDTH - BOUNDARY_BUFFER \<and>
      BOUNDARY_BUFFER \<le> b_y r \<and> b_y r + b_h r \<le> SITE_HEIGHT - BOUNDARY_BUFFER)"

text \<open>A building that some call of \<open>random_building\<close> on the given draws returns.\<close>

definition drawn :: "rng \<Rightarrow> building \<Rightarrow> bool" where
  "drawn draws c = (\<exists>ty k. c = fst (random_building draws ty k))"

text \<open>
  The final loop of \<open>generate_layout\<close> under a name: some \<^verbatim>\<open>'A'\<close> building has no
  \<^verbatim>\<open>'B'\<close> building within \<open>NEIGHBOR_DISTANCE\<close>.
\<close>

definition neighbor_violation :: "building list \<Rightarrow> bool" where
  "neighbor_violation buildings =
     list_ex (\<lambda>a. \<not> list_ex (\<lambda>b. rectangle_distance a b \<le> NEIGHBOR_DISTANCE)
                               (tower_b buildings)) (tower_a buildings)"

lemmas constants_defs =
  SITE_WIDTH_def SITE_HEIGHT_def TOWER_A_SIZE_def TOWER_B_SIZE_def BOUNDARY_BUFFER_def
  MIN_BUILDING_DISTANCE_def NEIGHBOR_DISTANCE_def PLAZA_SIZE_def PLAZA_X_def PLAZA_Y_def

section \<open>Properties of the geometry helpers\<close>

lemma rectangle_distance_sym: "rectangle_distance r1 r2 = rectangle_distance r2 r1"
  by (simp add: rectangle_distance_def Let_def max.commute)

lemma rectangle_distance_nonneg: "0 \<le> rectangle_distance r1 r2"
  by (simp add: rectangle_distance_def Let_def)

lemma rectangle_distance_zero_iff:
  "rectangle_distance r1 r2 = 0 \<longleftrightarrow>
     b_x r2 \<le> b_x r1 + b_w r1 \<and> b_x r1 \<le> b_x r2 + b_w r2 \<and>
     b_y r2 \<le> b_y r1 + b_h r1 \<and> b_y r1 \<le> b_y r2 + b_h r2"
proof -
  define dx where "dx = max (max (b_x r2 - (b_x r1 + b_w r1)) (b_x r1 - (b_x r2 + b_w r2))) 0"
  define dy where "dy = max (max (b_y r2 - (b_y r1 + b_h r1)) (b_y r1 - (b_y r2 + b_h r2))) 0"
  have nn: "0 \<le> dx" "0 \<le> dy"
    by (simp_all add: dx_def dy_def)
  have "rectangle_distance r1 r2 = sqrt (dx * dx + dy * dy)"
    by (simp add: rectangle_distance_def Let_def dx_def dy_def)
  also have "\<dots> = 0 \<longleftrightarrow> dx = 0 \<and> dy = 0"
    using nn by (simp add: add_nonneg_eq_0_iff)
  also have "dx = 0 \<longleftrightarrow> b_x r2 \<le> b_x r1 + b_w r1 \<and> b_x r1 \<le> b_x r2 + b_w r2"
    unfolding dx_def by linarith
  also have "dy = 0 \<longleftrightarrow> b_y r2 \<le> b_y r1 + b_h r1 \<and> b_y r1 \<le> b_y r2 + b_h r2"
    unfolding dy_def by linarith
  finally show ?thesis by blast
qed

text \<open>
  Comparisons of a distance with a non-negative bound, without the square root: used to
  evaluate the constraint checks on concrete rectangles.
\<close>

lemma rectangle_distance_less_iff:
  assumes "0 \<le> c"
  shows "rectangle_distance r1 r2 < c \<longleftrightarrow>
     (max (max (b_x r2 - (b_x r1 + b_w r1)) (b_x r1 - (b_x r2 + b_w r2))) 0)\<^sup>2 +
     (max (max (b_y r2 - (b_y r1 + b_h r1)) (b_y r1 - (b_y r2 + b_h r2))) 0)\<^sup>2 < c\<^sup>2"
proof -
  have "sqrt (c\<^sup>2) = c"
    using assms by simp
  then show ?thesis
    unfolding rectangle_distance_def Let_def power2_eq_square [symmetric]
    by (metis real_sqrt_less_iff)
qed

lemma rectangle_distance_le_iff:
  assumes "0 \<le> c"
  shows "rectangle_distance r1 r2 \<le> c \<longleftrightarrow>
     (max (max (b_x r2 - (b_x r1 + b_w r1)) (b_x r1 - (b_x r2 + b_w r2))) 0)\<^sup>2 +
     (max (max (b_y r2 - (b_y r1 + b_h r1)) (b_y r1 - (b_y r2 + b_h r2))) 0)\<^sup>2 \<le> c\<^sup>2"
proof -
  have "sqrt (c\<^sup>2) = c"
    using assms by simp
  then show ?thesis
    unfolding rectangle_distance_def Let_def power2_eq_square [symmetric]
    by (metis real_sqrt_le_iff)
qed

section \<open>Properties of the constraint check\<close>

lemma check_partial_constraints_iff:
  "check_partial_constraints bs \<longleftrightarrow>
     (\<forall>b \<in> set bs. \<not> rectangles_overlap b plaza) \<and>
     (\<forall>i j. i < j \<and> j < length bs \<longrightarrow>
        \<not> rectangle_distance (bs ! i) (bs ! j) < MIN_BUILDING_DISTANCE)"
  unfolding check_partial_constraints_def list_ex_iff
  by (auto simp: Suc_le_eq) blast

lemma check_partial_constraints_unordered:
  "check_partial_constraints bs \<longleftrightarrow>
     (\<forall>b \<in> set bs. \<not> rectangles_overlap b plaza) \<and>
     (\<forall>i j. i < length bs \<and> j < length bs \<and> i \<noteq> j \<longrightarrow>
        MIN_BUILDING_DISTANCE \<le> rectangle_distance (bs ! i) (bs ! j))"
proof -
  have "(\<forall>i j. i < j \<and> j < length bs \<longrightarrow>
        \<not> rectangle_distance (bs ! i) (bs ! j) < MIN_BUILDING_DISTANCE) \<longleftrightarrow>
     (\<forall>i j. i < length bs \<and> j < length bs \<and> i \<noteq> j \<longrightarrow>
        MIN_BUILDING_DISTANCE \<le> rectangle_distance (bs ! i) (bs ! j))" (is "?L \<longleftrightarrow> ?R")
  proof
    assume l: ?L
    show ?R
    proof (intro allI impI)
      fix i j assume h: "i < length bs \<and> j < length bs \<and> i \<noteq> j"
      show "MIN_BUILDING_DISTANCE \<le> rectangle_distance (bs ! i) (bs ! j)"
      proof (cases "i < j")
        case True
        with l h show ?thesis by (simp add: not_less)
      next
        case False
        with h have "j < i" by simp
        with l h have "\<not> rectangle_distance (bs ! j) (bs ! i) < MIN_BUILDING_DISTANCE" by blast
        then show ?thesis by (simp add: not_less rectangle_distance_sym [of "bs ! i"])
      qed
    qed
  next
    assume r: ?R
    show ?L
    proof (intro allI impI)
      fix i j :: nat assume h: "i < j \<and> j < length bs"
      then have "i < length bs \<and> j < length bs \<and> i \<noteq> j" by simp
      with r have "MIN_BUILDING_DISTANCE \<le> rectangle_distance (bs ! i) (bs ! j)" by blast
      then show "\<not> rectangle_distance (bs ! i) (bs ! j) < MIN_BUILDING_DISTANCE" by simp
    qed
  qed
  then show ?thesis by (simp only: check_partial_constraints_iff)
qed

lemma check_partial_constraints_snoc:
  assumes "check_partial_constraints (S @ [c])"
  shows "check_partial_constraints S"
proof -
  have ov: "\<forall>b \<in> set S. \<not> rectangles_overlap b plaza"
    using assms by (simp add: check_partial_constraints_iff)
  have "\<not> rectangle_distance (S ! i) (S ! j) < MIN_BUILDING_DISTANCE"
    if "i < j" "j < length S" for i j
  proof -
    have "\<not> rectangle_distance ((S @ [c]) ! i) ((S @ [c]) ! j) < MIN_BUILDING_DISTANCE"
      using assms that by (simp add: check_partial_constraints_iff)
    with that show ?thesis by (simp add: nth_append)
  qed
  with ov show ?thesis by (simp add: check_partial_constraints_iff)
qed

lemma check_partial_constraints_take:
  "check_partial_constraints S \<Longrightarrow> check_partial_constraints (take k S)"
proof (induction S rule: rev_induct)
  case Nil
  then show ?case by simp
next
  case (snoc c S)
  show ?case
  proof (cases "k \<le> length S")
    case True
    with snoc show ?thesis by (simp add: check_partial_constraints_snoc)
  next
    case False
    with snoc.prems show ?thesis by simp
  qed
qed

section \<open>Properties of the search\<close>


lemma check_partial_constraints_Nil: "check_partial_constraints []"
  by (simp add: check_partial_constraints_def)


lemma random_building_type: "b_type (fst (random_building draws ty n)) = ty"
  by (simp add: random_building_def Let_def split: prod.split)


lemma uniform_bounds:
  assumes "a \<le> b" "0 \<le> r" "r < 1"
  shows "a \<le> uniform a b r \<and> uniform a b r \<le> b"
proof -
  have "0 \<le> (b - a) * r"
    using assms by simp
  moreover have "(b - a) * r \<le> (b - a) * 1"
    using assms by (intro mult_left_mono) simp_all
  ultimately show ?thesis
    by (simp add: uniform_def)
qed


lemma random_building_inside:
  assumes "unit_draws draws"
  shows "inside_buffer (fst (random_building draws ty n))"
proof -
  have d: "0 \<le> draws n" "draws n < 1" "0 \<le> draws (n + 1)" "draws (n + 1) < 1"
    using assms by (simp_all add: unit_draws_def)
  show ?thesis
  proof (cases "ty = ''A''")
    case True
    have "10 \<le> uniform 10 160 (draws n) \<and> uniform 10 160 (draws n) \<le> 160"
      using d by (intro uniform_bounds) simp_all
    moreover have "10 \<le> uniform 10 110 (draws (n + 1)) \<and> uniform 10 110 (draws (n + 1)) \<le> 110"
      using d by (intro uniform_bounds) simp_all
    ultimately show ?thesis
      using True by (simp add: random_building_def inside_buffer_def constants_defs)
  next
    case False
    have "10 \<le> uniform 10 170 (draws n) \<and> uniform 10 170 (draws n) \<le> 170"
      using d by (intro uniform_bounds) simp_all
    moreover have "10 \<le> uniform 10 110 (draws (n + 1)) \<and> uniform 10 110 (draws (n + 1)) \<le> 110"
      using d by (intro uniform_bounds) simp_all
    ultimately show ?thesis
      using False by (simp add: random_building_def inside_buffer_def constants_defs)
  qed
qed

lemma place_Some:
  "place draws ty bs k n = Some (bs', n') \<Longrightarrow>
     \<exists>m. bs' = bs @ [fst (random_building draws ty m)] \<and> check_partial_constraints bs'"
proof (induction k arbitrary: n)
  case 0
  then show ?case by simp
next
  case (Suc k)
  obtain c n1 where rb: "random_building draws ty n = (c, n1)"
    by (cases "random_building draws ty n")
  show ?case
  proof (cases "check_partial_constraints (bs @ [c])")
    case True
    with Suc.prems rb have "bs' = bs @ [c]" by simp
    moreover have "c = fst (random_building draws ty n)"
      using rb by simp
    ultimately have "bs' = bs @ [fst (random_building draws ty n)] \<and> check_partial_constraints bs'"
      using True by simp
    then show ?thesis ..
  next
    case False
    with Suc.prems rb have "place draws ty bs k n1 = Some (bs', n')" by simp
    then show ?thesis by (rule Suc.IH)
  qed
qed

lemma place_all_Some:
  "place_all draws m tys bs n = Some (bs', n') \<Longrightarrow>
     \<exists>cs. bs' = bs @ cs \<and> map b_type cs = tys \<and>
          (\<forall>c \<in> set cs. drawn draws c) \<and>
          (check_partial_constraints bs \<longrightarrow> check_partial_constraints bs')"
proof (induction tys arbitrary: bs n)
  case Nil
  then have "bs' = bs" by simp
  then have "bs' = bs @ [] \<and> map b_type [] = [] \<and>
          (\<forall>c \<in> set []. drawn draws c) \<and>
          (check_partial_constraints bs \<longrightarrow> check_partial_constraints bs')"
    by simp
  then show ?case by (rule exI)
next
  case (Cons ty tys)
  obtain bs1 n1 where
    p: "place draws ty bs m n = Some (bs1, n1)"
  proof (cases "place draws ty bs m n")
    case None
    with Cons.prems show ?thesis by simp
  next
    case (Some r)
    with that show ?thesis by (cases r) simp
  qed
  with Cons.prems have r: "place_all draws m tys bs1 n1 = Some (bs', n')"
    by simp
  from place_Some [OF p] obtain k where
    k: "bs1 = bs @ [fst (random_building draws ty k)]" and c1: "check_partial_constraints bs1"
    by blast
  from Cons.IH [OF r] obtain cs where
    cs1: "bs' = bs1 @ cs" and cs2: "map b_type cs = tys" and
    cs3: "\<forall>c \<in> set cs. drawn draws c" and
    cs4: "check_partial_constraints bs1 \<longrightarrow> check_partial_constraints bs'"
    by blast
  define c0 where "c0 = fst (random_building draws ty k)"
  have d0: "drawn draws c0"
    unfolding drawn_def c0_def by blast
  have t0: "b_type c0 = ty"
    unfolding c0_def by (rule random_building_type)
  have a: "bs' = bs @ (c0 # cs)"
    using k cs1 by (simp add: c0_def)
  have b: "map b_type (c0 # cs) = ty # tys"
    using cs2 t0 by simp
  have c: "\<forall>c \<in> set (c0 # cs). drawn draws c"
    using cs3 d0 by simp
  have d: "check_partial_constraints bs'"
    using cs4 c1 by (rule mp)
  from a b c d have "bs' = bs @ (c0 # cs) \<and> map b_type (c0 # cs) = ty # tys \<and>
          (\<forall>c \<in> set (c0 # cs). drawn draws c) \<and>
          (check_partial_constraints bs \<longrightarrow> check_partial_constraints bs')"
    by (intro conjI impI)
  then show ?case by (rule exI)
qed

lemma generate_layout_cases:
  "generate_layout num_a num_b max_attempts draws =
     (case place_all draws (nat max_attempts)
             (replicate (nat num_a) ''A'' @ replicate (nat num_b) ''B'') [] 0 of
        None \<Rightarrow> None
      | Some (buildings, n) \<Rightarrow> if neighbor_violation buildings then None else Some buildings)"
  unfolding generate_layout_def neighbor_violation_def ..

lemma generate_layout_Some_place:
  assumes "generate_layout num_a num_b max_attempts draws = Some layout"
  shows "\<exists>n. place_all draws (nat max_attempts)
          (replicate (nat num_a) ''A'' @ replicate (nat num_b) ''B'') [] 0 = Some (layout, n)"
    and "\<not> neighbor_violation layout"
proof -
  define p where "p = place_all draws (nat max_attempts)
          (replicate (nat num_a) ''A'' @ replicate (nat num_b) ''B'') [] 0"
  have g: "(case p of None \<Rightarrow> None
      | Some (buildings, n) \<Rightarrow> if neighbor_violation buildings then None else Some buildings)
      = Some layout"
    using assms unfolding generate_layout_cases p_def .
  have "(\<exists>n. p = Some (layout, n)) \<and> \<not> neighbor_violation layout"
  proof (cases p)
    case None
    with g show ?thesis by simp
  next
    case (Some r)
    obtain bs n where r: "r = (bs, n)" by (cases r)
    from g Some r have "(if neighbor_violation bs then None else Some bs) = Some layout"
      by simp
    then have nv: "\<not> neighbor_violation bs" and eq: "bs = layout"
      by (cases "neighbor_violation bs"; simp)+
    from Some r eq have "p = Some (layout, n)" by simp
    then have "\<exists>n. p = Some (layout, n)" ..
    moreover from nv eq have "\<not> neighbor_violation layout" by simp
    ultimately show ?thesis ..
  qed
  then show "\<exists>n. place_all draws (nat max_attempts)
          (replicate (nat num_a) ''A'' @ replicate (nat num_b) ''B'') [] 0 = Some (layout, n)"
    and "\<not> neighbor_violation layout"
    unfolding p_def by blast+
qed

lemma generate_layout_Some:
  assumes "generate_layout num_a num_b max_attempts draws = Some layout"
  shows "check_partial_constraints layout"
    and "map b_type layout = replicate (nat num_a) ''A'' @ replicate (nat num_b) ''B''"
    and "\<forall>c \<in> set layout. drawn draws c"
    and "\<not> neighbor_violation layout"
proof -
  from generate_layout_Some_place [OF assms] obtain n where
    p: "place_all draws (nat max_attempts)
          (replicate (nat num_a) ''A'' @ replicate (nat num_b) ''B'') [] 0 = Some (layout, n)"
    and nb: "\<not> neighbor_violation layout"
    by blast
  from place_all_Some [OF p] obtain cs where
    cs1: "layout = [] @ cs" and
    cs2: "map b_type cs = replicate (nat num_a) ''A'' @ replicate (nat num_b) ''B''" and
    cs3: "\<forall>c \<in> set cs. drawn draws c" and
    cs4: "check_partial_constraints ([] :: building list) \<longrightarrow> check_partial_constraints layout"
    by blast
  from cs1 have l: "cs = layout" by simp
  show "check_partial_constraints layout"
    using cs4 check_partial_constraints_Nil by (rule mp)
  show "map b_type layout = replicate (nat num_a) ''A'' @ replicate (nat num_b) ''B''"
    using cs2 unfolding l .
  show "\<forall>c \<in> set layout. drawn draws c"
    using cs3 unfolding l .
  show "\<not> neighbor_violation layout" by (rule nb)
qed

lemma neighbor_violation_iff:
  "\<not> neighbor_violation layout \<longleftrightarrow>
     (\<forall>a \<in> set layout. b_type a = ''A'' \<longrightarrow>
        (\<exists>b \<in> set layout. b_type b = ''B'' \<and> rectangle_distance a b \<le> NEIGHBOR_DISTANCE))"
  unfolding neighbor_violation_def tower_a_def tower_b_def list_ex_iff
  by (simp only: set_filter mem_Collect_eq) blast

lemma drawn_inside: "unit_draws draws \<Longrightarrow> drawn draws c \<Longrightarrow> inside_buffer c"
  unfolding drawn_def using random_building_inside by blast

section \<open>The claims\<close>

text \<open>
  Claim C7. The distance between two rectangles is symmetric and never negative, and it
  is zero whenever the rectangles overlap or share a boundary.
\<close>

theorem rectangle_distance_symmetric_nonneg_zero:
  "rectangle_distance r1 r2 = rectangle_distance r2 r1 \<and>
   0 \<le> rectangle_distance r1 r2 \<and>
   (rectangles_overlap r1 r2 \<or> share_boundary r1 r2 \<longrightarrow> rectangle_distance r1 r2 = 0)"
proof (intro conjI impI)
  show "rectangle_distance r1 r2 = rectangle_distance r2 r1"
    by (rule rectangle_distance_sym)
  show "0 \<le> rectangle_distance r1 r2"
    by (rule rectangle_distance_nonneg)
  assume "rectangles_overlap r1 r2 \<or> share_boundary r1 r2"
  then have "b_x r2 \<le> b_x r1 + b_w r1 \<and> b_x r1 \<le> b_x r2 + b_w r2 \<and>
      b_y r2 \<le> b_y r1 + b_h r1 \<and> b_y r1 \<le> b_y r2 + b_h r2"
    unfolding rectangles_overlap_def share_boundary_def by linarith
  then show "rectangle_distance r1 r2 = 0"
    by (simp only: rectangle_distance_zero_iff)
qed

theorem rectangle_distance_symmetric_nonneg_zero_witness:
  "share_boundary \<lparr>b_x = 0, b_y = 0, b_w = 10, b_h = 10\<rparr>
                  \<lparr>b_x = 10, b_y = 0, b_w = 10, b_h = 10\<rparr> \<and>
   rectangle_distance \<lparr>b_x = 0, b_y = 0, b_w = 10, b_h = 10\<rparr>
                      \<lparr>b_x = 10, b_y = 0, b_w = 10, b_h = 10\<rparr> = 0"
  using rectangle_distance_symmetric_nonneg_zero
    [of "\<lparr>b_x = 0, b_y = 0, b_w = 10, b_h = 10\<rparr>" "\<lparr>b_x = 10, b_y = 0, b_w = 10, b_h = 10\<rparr>"]
  by (simp add: share_boundary_def rectangles_overlap_def)

end
